theory Spec2Isabelle
  imports Complex_Main
begin

section \<open>Data model of the well-log viewer (src/App.tsx)\<close>

text \<open>
  The component keeps its data in untyped JSON-like objects. A JSON number is a finite
  double; the operations used on numbers here (comparison, \<open>Math.min\<close>, \<open>Math.max\<close>,
  equality in \<open>Array.includes\<close>) agree on finite doubles with the same operations on
  the reals, so a number is a \<open>real\<close>. JSON has no \<open>NaN\<close>; a number literal beyond the
  range of a double (\<open>1e999\<close>) is read as an infinity, and such a reading is not
  modelled. Any other value a field may hold is one of the remaining constructors of
  \<open>jsval\<close>; \<open>JUndefined\<close> is what reading a missing property yields.
\<close>

datatype jsval = JNum real | JStr string | JBool bool | JNull | JUndefined

text \<open>
  One element of \<open>data\<close>: \<open>{depth, values}\<close>. The field \<open>values\<close> may be missing
  (\<open>None\<close>); when present it is an object from curve names to values.
\<close>

record sample =
  depth :: real
  values_of :: "(string \<rightharpoonup> jsval) option"

text \<open>An element of \<open>curves\<close>; only \<open>name\<close> is read.\<close>

record curve_descriptor =
  name :: string

text \<open>
  An element of \<open>wells\<close>. \<open>start_depth\<close> and \<open>stop_depth\<close> may be missing; the fields
  \<open>id\<close> and \<open>name\<close> of the source are \<open>well_id\<close> and \<open>well_name\<close> here.
\<close>

record well =
  well_id :: string
  well_name :: "string option"
  start_depth :: "real option"
  stop_depth :: "real option"

text \<open>
  The interpretation result, with the fields the component consumes. Every field may be
  missing. \<open>cleanedCurves\<close> is kept as the list \<open>Object.entries\<close> returns, since the
  traces are built in that order; the field \<open>values\<close> of a cleaned curve is
  \<open>cleaned_values\<close> here. The statistics shown as text (median, mean, ...) play no part
  in the charts and are left out.
\<close>

record curve_stats =
  spikeDepths :: "real list option"

record cleaned_curve =
  depths :: "real list option"
  cleaned_values :: "jsval list option"

record interpretation_result =
  stats :: "(string \<rightharpoonup> curve_stats) option"
  cleanedCurves :: "(string \<times> cleaned_curve) list option"
  summary :: "string option"

text \<open>
  \<open>axisRangesRef.current\<close>, a \<open>Record<string, [number, number]>\<close>: the own properties
  of the object as a map. A stored pair is an array and so always truthy: the test
  \<open>!axisRangesRef.current[curve]\<close> is the test that the key is missing. Curve names
  that are property names of \<open>Object.prototype\<close> are outside this model.
\<close>

type_synonym axis_ranges = "string \<rightharpoonup> real \<times> real"

text \<open>
  A trace object handed to \<open>Plotly.newPlot\<close>: \<open>x\<close>, \<open>y\<close>, \<open>mode\<close>, \<open>name\<close> and
  \<open>yaxis\<close> (missing on the traces of the cleaned chart). The constant styling
  (\<open>type: "scatter"\<close>, line width, marker colour and size) is left out.
\<close>

datatype trace_mode = Lines | Markers

record trace =
  trace_x :: "real list"
  trace_y :: "jsval list"
  mode :: trace_mode
  trace_name :: string
  trace_yaxis :: "string option"

text \<open>
  One value-axis object of the layout, with the fields that vary or that fix the scale;
  the constant styling (line, mirror, grid colour, tick font) is left out. \<open>range\<close> is
  \<open>axis_range\<close> here, \<open>None\<close> when the property is \<open>undefined\<close>.
\<close>

datatype axis_side = SideLeft | SideRight

record axis_config =
  title :: string
  showgrid :: bool
  overlaying :: "string option"
  side :: axis_side
  autorange :: bool
  axis_range :: "(real \<times> real) option"
  fixedrange :: bool

text \<open>
  A call of \<open>Plotly.newPlot\<close> on the main chart: the traces, and the entries
  \<open>[axisName, config]\<close> given to \<open>Object.fromEntries\<close> for the layout.
\<close>

record plot_call =
  call_traces :: "trace list"
  call_yaxes :: "(string \<times> axis_config) list"

text \<open>
  The state of the component: the \<open>useState\<close> cells the charts and the selection depend
  on, and the object held by \<open>axisRangesRef\<close>. The cells of the upload, of the chat and
  of the loading flag are left out. \<open>dataRequests\<close> and \<open>aiRequests\<close> are not cells: they
  count the requests of \<open>fetchData\<close> and of \<open>runAIInterpretation\<close> that are sent and
  not yet answered, each of which holds the rest of its function to run on the answer.
\<close>

record app_state =
  wells :: "well list"
  curves :: "curve_descriptor list"
  selectedWell :: string
  selectedCurves :: "string list"
  fromDepth :: real
  toDepth :: real
  data :: "sample list"
  interpretation_of :: "interpretation_result option"
  showAI :: bool
  axisRangesRef :: axis_ranges
  dataRequests :: nat
  aiRequests :: nat

section \<open>Computing and persisting the axis ranges\<close>

text \<open>\<open>typeof v === "number"\<close>\<close>

fun typeof_number :: "jsval \<Rightarrow> bool" where
  "typeof_number (JNum r) = True"
| "typeof_number v = False"

text \<open>\<open>d.values?.[curve]\<close>: \<open>undefined\<close> when \<open>values\<close> or the key is missing.\<close>

definition value_at :: "sample \<Rightarrow> string \<Rightarrow> jsval" where
  "value_at d curve =
     (case values_of d of
        None \<Rightarrow> JUndefined
      | Some m \<Rightarrow> (case m curve of None \<Rightarrow> JUndefined | Some v \<Rightarrow> v))"

text \<open>
  \<open>data.map(d => d.values?.[curve]).filter(v => typeof v === "number")\<close>, read as the
  list of the numbers themselves.
\<close>

fun number_of :: "jsval \<Rightarrow> real" where
  "number_of (JNum r) = r"
| "number_of v = 0"

definition numeric_values :: "sample list \<Rightarrow> string \<Rightarrow> real list" where
  "numeric_values samples curve =
     map number_of (filter typeof_number (map (\<lambda>d. value_at d curve) samples))"

text \<open>What the modelled code can throw.\<close>

datatype js_error = RangeError

text \<open>
  \<open>Math.min(...values)\<close> and \<open>Math.max(...values)\<close> on a non-empty argument list
  \<open>v, vs\<close>. The spread passes every element as an argument of one call, and an engine
  accepts only so many: with more than \<open>max_args\<close> arguments the call throws a
  \<open>RangeError\<close>. The limit belongs to the engine, not to the source, and is a
  parameter. Within the limit the result is the running minimum (maximum) from left to
  right.
\<close>

definition Math_min :: "nat \<Rightarrow> real \<Rightarrow> real list \<Rightarrow> js_error + real" where
  "Math_min max_args v vs =
     (if length (v # vs) > max_args then Inl RangeError else Inr (foldl min v vs))"

definition Math_max :: "nat \<Rightarrow> real \<Rightarrow> real list \<Rightarrow> js_error + real" where
  "Math_max max_args v vs =
     (if length (v # vs) > max_args then Inl RangeError else Inr (foldl max v vs))"

text \<open>
  The body of the first \<open>selectedCurves.forEach\<close> of the plot effect, for one curve:
  \<^verbatim>\<open>
  if (!axisRangesRef.current[curve]) {
    const values = ...;
    if (values.length > 0) {
      const min = Math.min(...values);
      const max = Math.max(...values);
      axisRangesRef.current[curve] = [min, max];
    }
  }\<close>
  A throw of \<open>Math.min\<close> or \<open>Math.max\<close> comes before the assignment and leaves the
  object as it is.
\<close>

definition persist_range ::
  "nat \<Rightarrow> sample list \<Rightarrow> axis_ranges \<Rightarrow> string \<Rightarrow> js_error + axis_ranges" where
  "persist_range max_args samples ranges curve =
     (case ranges curve of
        Some r \<Rightarrow> Inr ranges
      | None \<Rightarrow>
          (case numeric_values samples curve of
             [] \<Rightarrow> Inr ranges
           | v # vs \<Rightarrow>
               (case Math_min max_args v vs of
                  Inl e \<Rightarrow> Inl e
                | Inr mn \<Rightarrow>
                    (case Math_max max_args v vs of
                       Inl e \<Rightarrow> Inl e
                     | Inr mx \<Rightarrow> Inr (ranges(curve \<mapsto> (mn, mx)))))))"

text \<open>
  The \<open>forEach\<close> itself: the curves of the selection, in order. A throw ends the loop;
  what the earlier curves wrote stays in the object. The result is the object after the
  loop, and the error if the loop threw.
\<close>

fun persist_ranges ::
  "nat \<Rightarrow> sample list \<Rightarrow> string list \<Rightarrow> axis_ranges \<Rightarrow> axis_ranges \<times> js_error option" where
  "persist_ranges max_args samples [] ranges = (ranges, None)"
| "persist_ranges max_args samples (curve # rest) ranges =
     (case persist_range max_args samples ranges curve of
        Inl e \<Rightarrow> (ranges, Some e)
      | Inr ranges' \<Rightarrow> persist_ranges max_args samples rest ranges')"

text \<open>
  The numeric readings of a curve in a batch, in the words of the specification: the
  numbers \<open>r\<close> such that some sample of the batch has the value \<open>r\<close> under the curve's
  name. Samples without the curve and non-numeric entries contribute nothing.
\<close>

definition numeric_readings :: "sample list \<Rightarrow> string \<Rightarrow> real set" where
  "numeric_readings samples curve =
     {r. \<exists>d \<in> set samples. \<exists>m. values_of d = Some m \<and> m curve = Some (JNum r)}"

section \<open>Traces and axes of the main chart\<close>

text \<open>
  The template literals \<open>`y${index + 1}`\<close> and \<open>`yaxis${index + 1}`\<close> print a
  non-negative integer in decimal.
\<close>

definition digit_char :: "nat \<Rightarrow> char" where
  "digit_char d = char_of (48 + d)"

fun string_of_nat :: "nat \<Rightarrow> string" where
  "string_of_nat n =
     (if n < 10 then [digit_char n]
      else string_of_nat (n div 10) @ [digit_char (n mod 10)])"

declare string_of_nat.simps [simp del]

text \<open>\<open>index === 0 ? "y" : `y${index + 1}`\<close>\<close>

definition yaxis_ref :: "nat \<Rightarrow> string" where
  "yaxis_ref index = (if index = 0 then ''y'' else ''y'' @ string_of_nat (index + 1))"

text \<open>\<open>index === 0 ? "yaxis" : `yaxis${index + 1}`\<close>\<close>

definition axisName :: "nat \<Rightarrow> string" where
  "axisName index = (if index = 0 then ''yaxis'' else ''yaxis'' @ string_of_nat (index + 1))"

text \<open>\<open>interpretation?.stats?.[curve]?.spikeDepths || []\<close>\<close>

definition spikeDepths_of :: "interpretation_result option \<Rightarrow> string \<Rightarrow> real list" where
  "spikeDepths_of interp curve =
     (case interp of
        None \<Rightarrow> []
      | Some i \<Rightarrow>
          (case stats i of
             None \<Rightarrow> []
           | Some s \<Rightarrow>
               (case s curve of
                  None \<Rightarrow> []
                | Some cs \<Rightarrow> (case spikeDepths cs of None \<Rightarrow> [] | Some ds \<Rightarrow> ds))))"

text \<open>\<open>spikeDepths.includes(d.depth)\<close>: a linear search with equality of numbers.\<close>

fun array_includes :: "'a list \<Rightarrow> 'a \<Rightarrow> bool" where
  "array_includes [] v = False"
| "array_includes (u # us) v = (u = v \<or> array_includes us v)"

text \<open>The main curve line pushed for \<open>curve\<close> at position \<open>index\<close>.\<close>

definition line_trace :: "sample list \<Rightarrow> string \<Rightarrow> nat \<Rightarrow> trace" where
  "line_trace samples curve index =
     \<lparr>trace_x = map depth samples,
      trace_y = map (\<lambda>d. value_at d curve) samples,
      mode = Lines,
      trace_name = curve,
      trace_yaxis = Some (yaxis_ref index)\<rparr>"

text \<open>The marker trace over \<open>spikePoints = data.filter(d => spikeDepths.includes(d.depth))\<close>.\<close>

definition spike_trace :: "sample list \<Rightarrow> real list \<Rightarrow> string \<Rightarrow> nat \<Rightarrow> trace" where
  "spike_trace samples spikes curve index =
     (let spikePoints = filter (\<lambda>d. array_includes spikes (depth d)) samples
      in \<lparr>trace_x = map depth spikePoints,
          trace_y = map (\<lambda>p. value_at p curve) spikePoints,
          mode = Markers,
          trace_name = curve @ '' Spikes'',
          trace_yaxis = Some (yaxis_ref index)\<rparr>)"

text \<open>
  The body of the second \<open>selectedCurves.forEach((curve, index) => ...)\<close>: push the line
  trace, then the marker trace when \<open>spikeDepths.length > 0\<close>.
\<close>

definition push_curve_traces ::
  "sample list \<Rightarrow> interpretation_result option \<Rightarrow> trace list \<Rightarrow> string \<Rightarrow> nat \<Rightarrow> trace list" where
  "push_curve_traces samples interp traces curve index =
     (let traces1 = traces @ [line_trace samples curve index];
          spikes = spikeDepths_of interp curve
      in if length spikes > 0 then traces1 @ [spike_trace samples spikes curve index]
         else traces1)"

text \<open>The loop, from position \<open>index\<close> on, with the array \<open>traces\<close> built so far.\<close>

fun forEach_traces ::
  "sample list \<Rightarrow> interpretation_result option \<Rightarrow> nat \<Rightarrow> string list \<Rightarrow> trace list \<Rightarrow> trace list" where
  "forEach_traces samples interp index [] traces = traces"
| "forEach_traces samples interp index (curve # rest) traces =
     forEach_traces samples interp (Suc index) rest
       (push_curve_traces samples interp traces curve index)"

text \<open>The traces argument of \<open>Plotly.newPlot\<close> (the function called in place).\<close>

definition main_traces ::
  "sample list \<Rightarrow> string list \<Rightarrow> interpretation_result option \<Rightarrow> trace list" where
  "main_traces samples sel interp = forEach_traces samples interp 0 sel []"

text \<open>The entry \<open>[axisName, {...}]\<close> built for \<open>curve\<close> at position \<open>index\<close>.\<close>

definition yaxis_entry :: "axis_ranges \<Rightarrow> string \<Rightarrow> nat \<Rightarrow> string \<times> axis_config" where
  "yaxis_entry ranges curve index =
     (axisName index,
      \<lparr>title = curve,
       showgrid = (index = 0),
       overlaying = (if index = 0 then None else Some ''y''),
       side = (if index mod 2 = 0 then SideLeft else SideRight),
       autorange = False,
       axis_range = ranges curve,
       fixedrange = True\<rparr>)"

text \<open>\<open>selectedCurves.map((curve, index) => ...)\<close>, from position \<open>index\<close> on.\<close>

fun yaxis_entries :: "axis_ranges \<Rightarrow> nat \<Rightarrow> string list \<Rightarrow> (string \<times> axis_config) list" where
  "yaxis_entries ranges index [] = []"
| "yaxis_entries ranges index (curve # rest) =
     yaxis_entry ranges curve index # yaxis_entries ranges (Suc index) rest"

text \<open>\<open>Object.fromEntries\<close>: a later entry overwrites an earlier one with the same key.\<close>

fun fromEntries :: "('k \<times> 'v) list \<Rightarrow> ('k \<rightharpoonup> 'v)" where
  "fromEntries [] = Map.empty"
| "fromEntries ((k, v) # es) = (\<lambda>k'. case fromEntries es k' of Some w \<Rightarrow> Some w
                                 | None \<Rightarrow> if k' = k then Some v else None)"

text \<open>
  The effect on \<open>[data, selectedCurves, interpretation]\<close>. \<open>plotRef\<close> tells whether
  \<open>plotRef.current\<close> is set. The result is the object of \<open>axisRangesRef\<close> after the
  effect, and how the effect ends: with the error thrown by the range loop, in which
  case \<open>Plotly.newPlot\<close> is not reached, or else with the call of \<open>Plotly.newPlot\<close> if
  one is made.
\<close>

definition plot_effect ::
  "nat \<Rightarrow> bool \<Rightarrow> sample list \<Rightarrow> string list \<Rightarrow> interpretation_result option
     \<Rightarrow> axis_ranges \<Rightarrow> axis_ranges \<times> (js_error + plot_call option)" where
  "plot_effect max_args plotRef samples sel interp ranges =
     (if \<not> plotRef \<or> length samples = 0 then (ranges, Inr None)
      else
        (case persist_ranges max_args samples sel ranges of
           (ranges', Some e) \<Rightarrow> (ranges', Inl e)
         | (ranges', None) \<Rightarrow>
             (ranges',
              Inr (Some \<lparr>call_traces = main_traces samples sel interp,
                         call_yaxes = yaxis_entries ranges' 0 sel\<rparr>))))"

section \<open>The chart of the cleaned curves\<close>

text \<open>
  The body of \<open>Object.entries(cleanedCurves).forEach\<close>:
  \<^verbatim>\<open>if (!curveData.depths || !curveData.values) return; traces.push({...});\<close>
  An array is truthy, also when it is empty, so the test is that both fields are there.
\<close>

definition push_cleaned :: "trace list \<Rightarrow> string \<times> cleaned_curve \<Rightarrow> trace list" where
  "push_cleaned traces entry =
     (case entry of (curveName, curveData) \<Rightarrow>
        (case depths curveData of
           None \<Rightarrow> traces
         | Some ds \<Rightarrow>
             (case cleaned_values curveData of
                None \<Rightarrow> traces
              | Some vs \<Rightarrow>
                  traces @
                  [\<lparr>trace_x = ds, trace_y = vs, mode = Lines,
                    trace_name = curveName @ '' (Cleaned)'', trace_yaxis = None\<rparr>])))"

definition cleaned_traces :: "(string \<times> cleaned_curve) list \<Rightarrow> trace list" where
  "cleaned_traces entries = foldl push_cleaned [] entries"

text \<open>
  The effect on \<open>[interpretation]\<close>: the traces given to \<open>Plotly.newPlot\<close>, or \<open>None\<close>
  when the effect returns before the call.
\<close>

definition cleaned_plot_effect ::
  "bool \<Rightarrow> interpretation_result option \<Rightarrow> trace list option" where
  "cleaned_plot_effect cleanedPlotRef interp =
     (if \<not> cleanedPlotRef then None
      else
        (case interp of
           None \<Rightarrow> None
         | Some i \<Rightarrow>
             (case cleanedCurves i of
                None \<Rightarrow> None
              | Some entries \<Rightarrow>
                  (let traces = cleaned_traces entries
                   in if length traces = 0 then None else Some traces))))"

section \<open>State changes of the component\<close>

text \<open>
  \<open>well.start_depth || 0\<close>: the number itself (a zero gives \<open>0\<close> again), and \<open>0\<close> when
  the field is missing.
\<close>

definition or_zero :: "real option \<Rightarrow> real" where
  "or_zero v = (case v of None \<Rightarrow> 0 | Some r \<Rightarrow> r)"

text \<open>
  The effect on \<open>[selectedWell, wells]\<close>, up to the request for the curves: nothing for
  the empty well id, else the depth bounds of the well found, if any.
\<close>

definition well_effect :: "app_state \<Rightarrow> app_state" where
  "well_effect st =
     (if selectedWell st = [] then st
      else
        (case find (\<lambda>w. well_id w = selectedWell st) (wells st) of
           None \<Rightarrow> st
         | Some w \<Rightarrow> st\<lparr>fromDepth := or_zero (start_depth w), toDepth := or_zero (stop_depth w)\<rparr>))"

text \<open>
  The handler of the curves response \<open>res.data\<close>: \<open>Depth\<close> and \<open>Time\<close> are removed, and
  the selection becomes the first remaining curve, or empty when none remains.
\<close>

definition curves_loaded :: "app_state \<Rightarrow> curve_descriptor list \<Rightarrow> app_state" where
  "curves_loaded st res =
     (let filteredCurves = filter (\<lambda>c. name c \<noteq> ''Depth'' \<and> name c \<noteq> ''Time'') res
      in st\<lparr>curves := filteredCurves,
            selectedCurves := (case filteredCurves of [] \<Rightarrow> [] | c # cs \<Rightarrow> [name c])\<rparr>)"

text \<open>
  \<open>onChange\<close> of the checkbox of curve \<open>c\<close>; \<open>checked\<close> is \<open>e.target.checked\<close>:
  \<^verbatim>\<open>
  if (e.target.checked) {
    if (selectedCurves.length >= 3) return;
    setSelectedCurves([...selectedCurves, c.name]);
  } else {
    setSelectedCurves(selectedCurves.filter(curve => curve !== c.name));
  }\<close>
\<close>

definition checkbox_onChange :: "string list \<Rightarrow> string \<Rightarrow> bool \<Rightarrow> string list" where
  "checkbox_onChange sel c checked =
     (if checked then (if length sel \<ge> 3 then sel else sel @ [c])
      else filter (\<lambda>curve. curve \<noteq> c) sel)"

text \<open>
  A click on the checkbox of \<open>c\<close>. The box is controlled by
  \<open>checked={selectedCurves.includes(c.name)}\<close>, so the click reports the opposite.
\<close>

definition toggle_curve :: "app_state \<Rightarrow> string \<Rightarrow> app_state" where
  "toggle_curve st c =
     st\<lparr>selectedCurves :=
          checkbox_onChange (selectedCurves st) c (\<not> array_includes (selectedCurves st) c)\<rparr>"

text \<open>
  \<open>fetchData\<close> is an \<open>async\<close> function and runs in two parts. The first part runs at
  the click: it tests the well and the selection of that moment and, if the test lets
  it, sends the request.
  \<^verbatim>\<open>if (!selectedWell || selectedCurves.length === 0) return;\<close>
\<close>

definition fetchData :: "app_state \<Rightarrow> app_state" where
  "fetchData st =
     (if selectedWell st = [] \<or> length (selectedCurves st) = 0 then st
      else st\<lparr>dataRequests := Suc (dataRequests st)\<rparr>)"

text \<open>
  The second part runs when the answer of a request arrives, on the state of that
  moment and with no test: \<open>setData(res.data)\<close> for \<open>Some\<close> of the samples received, an
  alert and no change of the cells for \<open>None\<close>, a request that failed. Without a request
  awaiting its answer there is nothing to run.
\<close>

definition fetchData_resumed :: "app_state \<Rightarrow> sample list option \<Rightarrow> app_state" where
  "fetchData_resumed st res =
     (if dataRequests st = 0 then st
      else
        (case res of
           None \<Rightarrow> st\<lparr>dataRequests := dataRequests st - 1\<rparr>
         | Some d \<Rightarrow> st\<lparr>data := d, dataRequests := dataRequests st - 1\<rparr>))"

text \<open>\<open>runAIInterpretation\<close>, in the same two parts.\<close>

definition runAIInterpretation :: "app_state \<Rightarrow> app_state" where
  "runAIInterpretation st =
     (if selectedWell st = [] \<or> length (selectedCurves st) = 0 then st
      else st\<lparr>aiRequests := Suc (aiRequests st)\<rparr>)"

definition runAIInterpretation_resumed ::
  "app_state \<Rightarrow> interpretation_result option \<Rightarrow> app_state" where
  "runAIInterpretation_resumed st res =
     (if aiRequests st = 0 then st
      else
        (case res of
           None \<Rightarrow> st\<lparr>aiRequests := aiRequests st - 1\<rparr>
         | Some i \<Rightarrow>
             st\<lparr>interpretation_of := Some i, showAI := True, aiRequests := aiRequests st - 1\<rparr>))"

text \<open>
  \<open>handleDeleteWell(wellId)\<close>: \<open>confirmed\<close> is the answer of \<open>window.confirm\<close>,
  \<open>deleted\<close> tells whether the delete request succeeded, \<open>reloaded\<close> is the list of
  wells \<open>loadWells\<close> received, if it did.
\<close>

definition handleDeleteWell ::
  "app_state \<Rightarrow> string \<Rightarrow> bool \<Rightarrow> bool \<Rightarrow> well list option \<Rightarrow> app_state" where
  "handleDeleteWell st wellId confirmed deleted reloaded =
     (if \<not> confirmed then st
      else if \<not> deleted then st
      else
        (let st1 = (if selectedWell st = wellId
                    then st\<lparr>selectedWell := [], curves := [], data := []\<rparr> else st)
         in (case reloaded of None \<Rightarrow> st1 | Some ws \<Rightarrow> st1\<lparr>wells := ws\<rparr>)))"

text \<open>
  What can happen to the component. The answer to a request is an event of its own,
  since the rest of the function runs whenever the answer arrives: \<open>FetchData\<close> and
  \<open>RunAI\<close> are the clicks, \<open>DataResponse\<close> and \<open>AIResponse\<close> the answers. The requests
  for the curves and for the wells are not counted; their answers, \<open>CurvesLoaded\<close> and
  \<open>WellsLoaded\<close>, are let in at any time.
\<close>

datatype event =
    SelectWell string
  | CurvesLoaded "curve_descriptor list"
  | ToggleCurve string
  | FetchData
  | DataResponse "sample list option"
  | RunAI
  | AIResponse "interpretation_result option"
  | DeleteWell string bool bool "well list option"
  | WellsLoaded "well list"

text \<open>The handler of an event, before the render that follows it.\<close>

fun apply_event :: "app_state \<Rightarrow> event \<Rightarrow> app_state" where
  "apply_event st (SelectWell w) = st\<lparr>selectedWell := w\<rparr>"
| "apply_event st (CurvesLoaded res) = curves_loaded st res"
| "apply_event st (ToggleCurve c) = toggle_curve st c"
| "apply_event st FetchData = fetchData st"
| "apply_event st (DataResponse res) = fetchData_resumed st res"
| "apply_event st RunAI = runAIInterpretation st"
| "apply_event st (AIResponse res) = runAIInterpretation_resumed st res"
| "apply_event st (DeleteWell wellId confirmed deleted reloaded) =
     handleDeleteWell st wellId confirmed deleted reloaded"
| "apply_event st (WellsLoaded ws) = st\<lparr>wells := ws\<rparr>"

text \<open>The events that call \<open>setWells\<close>, which gives \<open>wells\<close> a new array.\<close>

fun sets_wells :: "event \<Rightarrow> bool" where
  "sets_wells (WellsLoaded ws) = True"
| "sets_wells (DeleteWell wellId confirmed deleted reloaded) =
     (confirmed \<and> deleted \<and> reloaded \<noteq> None)"
| "sets_wells ev = False"

text \<open>
  The handler, then the effect on \<open>[selectedWell, wells]\<close> when one of the two has
  changed.
\<close>

definition handle_event :: "app_state \<Rightarrow> event \<Rightarrow> app_state" where
  "handle_event st ev =
     (let st' = apply_event st ev
      in if selectedWell st' \<noteq> selectedWell st \<or> sets_wells ev then well_effect st' else st')"

text \<open>
  The plot effect on the state after a render; \<open>plotRef.current\<close> is set, the element
  being rendered always. The result is the state with the object of \<open>axisRangesRef\<close> as
  the effect leaves it, and how the effect ends.
\<close>

definition run_plot_effect :: "nat \<Rightarrow> app_state \<Rightarrow> app_state \<times> (js_error + plot_call option)" where
  "run_plot_effect max_args st =
     (case plot_effect max_args True (data st) (selectedCurves st) (interpretation_of st)
             (axisRangesRef st) of
        (ranges', outcome) \<Rightarrow> (st\<lparr>axisRangesRef := ranges'\<rparr>, outcome))"

text \<open>
  \<open>cleanedPlotRef.current\<close> is set when its element is rendered:
  \<open>showAI && interpretation?.cleanedCurves\<close>.
\<close>

definition cleanedPlotRef :: "app_state \<Rightarrow> bool" where
  "cleanedPlotRef st =
     (showAI st \<and> (case interpretation_of st of None \<Rightarrow> False | Some i \<Rightarrow> cleanedCurves i \<noteq> None))"

definition run_cleaned_plot_effect :: "app_state \<Rightarrow> trace list option" where
  "run_cleaned_plot_effect st = cleaned_plot_effect (cleanedPlotRef st) (interpretation_of st)"

text \<open>
  One event, then the render and the plot effect; a sequence of events. The plot effect
  is run after every event. React runs it on the first render and then only when
  \<open>data\<close>, \<open>selectedCurves\<close> or \<open>interpretation\<close> has changed; running it again on the
  same three, after a run that did not throw, leaves the cache as it is
  (\<open>persist_ranges_idem\<close> below), so the states reached are the same.

  An error thrown by the effect is caught nowhere in the component, and React then
  takes the component off the screen: no later event reaches it. \<open>step\<close> gives the
  state as the effect leaves it, thrown or not. A run of the model that goes on after a
  throw is no run of the component; what holds of every run of the model holds of every
  run of the component.
\<close>

definition step :: "nat \<Rightarrow> app_state \<Rightarrow> event \<Rightarrow> app_state" where
  "step max_args st ev = fst (run_plot_effect max_args (handle_event st ev))"

fun run :: "nat \<Rightarrow> app_state \<Rightarrow> event list \<Rightarrow> app_state" where
  "run max_args st [] = st"
| "run max_args st (ev # evs) = run max_args (step max_args st ev) evs"

section \<open>Descriptions and scenarios used in the statements\<close>

text \<open>
  The line trace of one entry of \<open>cleanedCurves\<close>, when the entry has both \<open>depths\<close> and
  \<open>values\<close>; \<open>None\<close> when one of them is missing.
\<close>

definition cleaned_line :: "string \<times> cleaned_curve \<Rightarrow> trace option" where
  "cleaned_line entry =
     (case (depths (snd entry), cleaned_values (snd entry)) of
        (Some ds, Some vs) \<Rightarrow>
          Some \<lparr>trace_x = ds, trace_y = vs, mode = Lines,
                trace_name = fst entry @ '' (Cleaned)'', trace_yaxis = None\<rparr>
      | _ \<Rightarrow> None)"

text \<open>The state after the first render: the initial values of the \<open>useState\<close> cells.\<close>

definition init_state :: app_state where
  "init_state =
     \<lparr>wells = [], curves = [], selectedWell = [], selectedCurves = [], fromDepth = 0,
      toDepth = 0, data = [], interpretation_of = None, showAI = False,
      axisRangesRef = Map.empty, dataRequests = 0, aiRequests = 0\<rparr>"

text \<open>A sample with one numeric reading, \<open>{depth: dep, values: {curve: v}}\<close>.\<close>

definition reading :: "real \<Rightarrow> string \<Rightarrow> real \<Rightarrow> sample" where
  "reading dep curve v = \<lparr>depth = dep, values_of = Some [curve \<mapsto> JNum v]\<rparr>"

text \<open>
  A state with well \<open>A\<close> selected, its curve \<open>GR\<close> loaded and plotted, and the range
  \<open>[5, 15]\<close> cached for \<open>GR\<close>.
\<close>

definition loaded_state :: app_state where
  "loaded_state =
     \<lparr>wells = [],
      curves = [\<lparr>name = ''GR''\<rparr>, \<lparr>name = ''RT''\<rparr>, \<lparr>name = ''NPHI''\<rparr>, \<lparr>name = ''RHOB''\<rparr>],
      selectedWell = ''A'', selectedCurves = [''GR''], fromDepth = 0, toDepth = 1,
      data = [reading 0 ''GR'' 5, reading 1 ''GR'' 15], interpretation_of = None,
      showAI = False, axisRangesRef = [''GR'' \<mapsto> (5, 15)], dataRequests = 0,
      aiRequests = 0\<rparr>"

text \<open>
  A session over two wells that both have a curve \<open>GR\<close>: well \<open>A\<close> is selected and its
  data requested and received, then well \<open>B\<close> is selected and its curves arrive.
\<close>

definition well_change_session :: "event list" where
  "well_change_session =
     [WellsLoaded
        [\<lparr>well_id = ''A'', well_name = None, start_depth = Some 0, stop_depth = Some 1\<rparr>,
         \<lparr>well_id = ''B'', well_name = None, start_depth = Some 0, stop_depth = Some 9\<rparr>],
      SelectWell ''A'',
      CurvesLoaded [\<lparr>name = ''Depth''\<rparr>, \<lparr>name = ''GR''\<rparr>],
      FetchData,
      DataResponse (Some [reading 0 ''GR'' 5, reading 1 ''GR'' 15]),
      SelectWell ''B'',
      CurvesLoaded [\<lparr>name = ''Depth''\<rparr>, \<lparr>name = ''GR''\<rparr>]]"

text \<open>The same session, going on with the data of well \<open>B\<close> requested and received.\<close>

definition two_well_session :: "event list" where
  "two_well_session =
     well_change_session @ [FetchData, DataResponse (Some [reading 2 ''GR'' 100])]"

text \<open>
  A batch of \<open>n\<close> samples, at the depths \<open>0, 1, ..., n - 1\<close>, each with a numeric
  reading of the curve.
\<close>

definition ramp_batch :: "string \<Rightarrow> nat \<Rightarrow> sample list" where
  "ramp_batch curve n = map (\<lambda>i. reading (real i) curve (real i)) [0..<n]"

text \<open>Samples at the depths 90, 100, 110, 150, 200, and spikes flagged at 100 and 150.\<close>

definition spike_samples :: "sample list" where
  "spike_samples =
     [reading 90 ''GR'' 1, reading 100 ''GR'' 2, reading 110 ''GR'' 3, reading 150 ''GR'' 4,
      reading 200 ''GR'' 5]"

definition spike_interpretation :: interpretation_result where
  "spike_interpretation =
     \<lparr>stats = Some [''GR'' \<mapsto> \<lparr>spikeDepths = Some [100, 150]\<rparr>], cleanedCurves = None,
      summary = None\<rparr>"

section \<open>Properties of the range cache\<close>

lemma foldl_min_Min: "foldl min a xs = Min (insert a (set xs))" for a :: real
proof (induction xs arbitrary: a)
  case Nil
  show ?case by simp
next
  case (Cons x xs)
  have "Min (insert (min a x) (set xs)) = Min (insert a (insert x (set xs)))"
    by (cases "set xs = {}") (simp_all add: min.assoc)
  with Cons show ?case by simp
qed

lemma foldl_max_Max: "foldl max a xs = Max (insert a (set xs))" for a :: real
proof (induction xs arbitrary: a)
  case Nil
  show ?case by simp
next
  case (Cons x xs)
  have "Max (insert (max a x) (set xs)) = Max (insert a (insert x (set xs)))"
    by (cases "set xs = {}") (simp_all add: max.assoc)
  with Cons show ?case by simp
qed

lemma Math_min_Min:
  "Math_min max_args v vs =
     (if max_args < length (v # vs) then Inl RangeError else Inr (Min (set (v # vs))))"
  by (simp add: Math_min_def foldl_min_Min)

lemma Math_max_Max:
  "Math_max max_args v vs =
     (if max_args < length (v # vs) then Inl RangeError else Inr (Max (set (v # vs))))"
  by (simp add: Math_max_def foldl_max_Max)

lemma typeof_number_iff: "typeof_number v \<longleftrightarrow> (\<exists>r. v = JNum r)"
  by (cases v) simp_all

lemma value_at_JNum:
  "value_at d curve = JNum r \<longleftrightarrow> (\<exists>m. values_of d = Some m \<and> m curve = Some (JNum r))"
  by (auto simp: value_at_def split: option.splits)

lemma set_numeric_values: "set (numeric_values samples curve) = numeric_readings samples curve"
proof (rule set_eqI)
  fix r
  have "r \<in> set (numeric_values samples curve) \<longleftrightarrow> (\<exists>d \<in> set samples. value_at d curve = JNum r)"
    by (force simp: numeric_values_def typeof_number_iff image_iff)
  then show "r \<in> set (numeric_values samples curve) \<longleftrightarrow> r \<in> numeric_readings samples curve"
    by (simp add: numeric_readings_def value_at_JNum)
qed

text \<open>
  What the loop body does for one curve: it throws exactly when the curve is not cached
  and has more numeric values than one call accepts; else it leaves a cached curve
  alone and gives an uncached one the least and the greatest of its numeric readings,
  if it has any.
\<close>

lemma persist_range_unfold:
  "persist_range max_args samples ranges curve =
     (case ranges curve of
        Some r \<Rightarrow> Inr ranges
      | None \<Rightarrow>
          if numeric_readings samples curve = {} then Inr ranges
          else if max_args < length (numeric_values samples curve) then Inl RangeError
          else Inr (ranges(curve \<mapsto>
                 (Min (numeric_readings samples curve), Max (numeric_readings samples curve)))))"
proof (cases "numeric_values samples curve")
  case Nil
  moreover from Nil have "numeric_readings samples curve = {}"
    using set_numeric_values [of samples curve] by simp
  ultimately show ?thesis by (simp add: persist_range_def split: option.splits)
next
  case (Cons v vs)
  moreover from Cons have "numeric_readings samples curve = set (v # vs)"
    using set_numeric_values [of samples curve] by simp
  ultimately show ?thesis
    by (simp add: persist_range_def Math_min_Min Math_max_Max split: option.splits)
qed

lemma persist_range_hit:
  "persist_range max_args samples ranges curve = Inr ranges' \<Longrightarrow> ranges c = Some r \<Longrightarrow>
   ranges' c = Some r"
  by (auto simp: persist_range_unfold split: option.splits if_splits)

lemma persist_range_other:
  "persist_range max_args samples ranges curve = Inr ranges' \<Longrightarrow> c \<noteq> curve \<Longrightarrow>
   ranges' c = ranges c"
  by (auto simp: persist_range_unfold split: option.splits if_splits)

lemma persist_range_miss:
  "persist_range max_args samples ranges c = Inr ranges' \<Longrightarrow> ranges c = None \<Longrightarrow>
   ranges' c =
     (if numeric_readings samples c = {} then None
      else Some (Min (numeric_readings samples c), Max (numeric_readings samples c)))"
  by (auto simp: persist_range_unfold split: option.splits if_splits)

lemma persist_range_throws:
  "persist_range max_args samples ranges c = Inl e \<longleftrightarrow>
     ranges c = None \<and> max_args < length (numeric_values samples c)"
proof -
  have "e = RangeError" by (cases e)
  moreover have "numeric_readings samples c = {} \<longleftrightarrow> numeric_values samples c = []"
    using set_numeric_values [of samples c] by auto
  ultimately show ?thesis by (auto simp: persist_range_unfold split: option.splits)
qed

lemma persist_ranges_hit:
  "ranges c = Some r \<Longrightarrow> fst (persist_ranges max_args samples sel ranges) c = Some r"
proof (induction sel arbitrary: ranges)
  case Nil
  then show ?case by simp
next
  case (Cons curve rest)
  show ?case
  proof (cases "persist_range max_args samples ranges curve")
    case (Inl e)
    with Cons.prems show ?thesis by simp
  next
    case (Inr ranges')
    with Cons.prems have "ranges' c = Some r" by (simp add: persist_range_hit)
    with Cons.IH [of ranges'] Inr show ?thesis by simp
  qed
qed

lemma persist_ranges_other:
  "c \<notin> set sel \<Longrightarrow> fst (persist_ranges max_args samples sel ranges) c = ranges c"
proof (induction sel arbitrary: ranges)
  case Nil
  then show ?case by simp
next
  case (Cons curve rest)
  show ?case
  proof (cases "persist_range max_args samples ranges curve")
    case (Inl e)
    then show ?thesis by simp
  next
    case (Inr ranges')
    with Cons.prems have "ranges' c = ranges c" by (simp add: persist_range_other)
    with Cons.IH [of ranges'] Cons.prems Inr show ?thesis by simp
  qed
qed

text \<open>The loop does not throw when no selected curve has too many numeric values.\<close>

lemma persist_ranges_no_throw:
  "\<forall>c \<in> set sel. length (numeric_values samples c) \<le> max_args \<Longrightarrow>
   snd (persist_ranges max_args samples sel ranges) = None"
proof (induction sel arbitrary: ranges)
  case Nil
  show ?case by simp
next
  case (Cons curve rest)
  show ?case
  proof (cases "persist_range max_args samples ranges curve")
    case (Inl e)
    with Cons.prems show ?thesis by (simp add: persist_range_throws)
  next
    case (Inr ranges')
    with Cons.IH [of ranges'] Cons.prems show ?thesis by simp
  qed
qed

lemma persist_ranges_miss:
  "snd (persist_ranges max_args samples sel ranges) = None \<Longrightarrow> c \<in> set sel \<Longrightarrow>
   ranges c = None \<Longrightarrow>
   fst (persist_ranges max_args samples sel ranges) c =
     (if numeric_readings samples c = {} then None
      else Some (Min (numeric_readings samples c), Max (numeric_readings samples c)))"
proof (induction sel arbitrary: ranges)
  case Nil
  then show ?case by simp
next
  case (Cons curve rest)
  show ?case
  proof (cases "persist_range max_args samples ranges curve")
    case (Inl e)
    with Cons.prems(1) show ?thesis by simp
  next
    case (Inr ranges')
    with Cons.prems(1) have rest: "snd (persist_ranges max_args samples rest ranges') = None"
      by simp
    show ?thesis
    proof (cases "curve = c")
      case True
      with Inr Cons.prems(3) have new: "ranges' c =
          (if numeric_readings samples c = {} then None
           else Some (Min (numeric_readings samples c), Max (numeric_readings samples c)))"
        by (simp add: persist_range_miss)
      show ?thesis
      proof (cases "ranges' c")
        case (Some r)
        with new Inr show ?thesis
          using persist_ranges_hit [of ranges' c r max_args samples rest]
          by (simp split: if_splits)
      next
        case None
        show ?thesis
        proof (cases "c \<in> set rest")
          case True
          with Cons.IH [OF rest True None] Inr show ?thesis by simp
        next
          case False
          with None new Inr show ?thesis
            using persist_ranges_other [of c rest max_args samples ranges']
            by (simp split: if_splits)
        qed
      qed
    next
      case False
      with Cons.prems(2) have "c \<in> set rest" by simp
      moreover from False Inr Cons.prems(3) have "ranges' c = None"
        by (simp add: persist_range_other)
      ultimately show ?thesis using Cons.IH [OF rest] Inr by simp
    qed
  qed
qed

text \<open>
  Running the loop again on the same batch and selection, after a run that did not
  throw, changes nothing, so the cache does not depend on how often the effect runs
  between two changes of its inputs.
\<close>

lemma persist_ranges_saturated:
  "\<forall>c \<in> set sel. ranges c \<noteq> None \<or> numeric_readings samples c = {} \<Longrightarrow>
   persist_ranges max_args samples sel ranges = (ranges, None)"
  by (induction sel) (auto simp: persist_range_unfold split: option.splits)

lemma persist_ranges_idem:
  assumes "snd (persist_ranges max_args samples sel ranges) = None"
  shows "persist_ranges max_args samples sel (fst (persist_ranges max_args samples sel ranges)) =
           (fst (persist_ranges max_args samples sel ranges), None)"
proof (rule persist_ranges_saturated, rule ballI)
  fix c
  assume c: "c \<in> set sel"
  let ?r = "fst (persist_ranges max_args samples sel ranges)"
  show "?r c \<noteq> None \<or> numeric_readings samples c = {}"
  proof (cases "ranges c")
    case (Some r)
    then show ?thesis by (simp add: persist_ranges_hit)
  next
    case None
    from persist_ranges_miss [OF assms c None] show ?thesis by (simp split: if_splits)
  qed
qed

lemma numeric_values_ramp_batch: "numeric_values (ramp_batch curve n) curve = map real [0..<n]"
  by (simp add: ramp_batch_def numeric_values_def value_at_def reading_def comp_def)

lemmas range_eval =
  persist_range_def numeric_values_def value_at_def Math_min_def Math_max_def reading_def

lemma fst_plot_effect:
  "fst (plot_effect max_args plotRef samples sel interp ranges) =
     (if \<not> plotRef \<or> samples = [] then ranges
      else fst (persist_ranges max_args samples sel ranges))"
  by (simp add: plot_effect_def split: prod.splits option.splits)

lemma snd_plot_effect:
  "snd (plot_effect max_args plotRef samples sel interp ranges) =
     (if \<not> plotRef \<or> samples = [] then Inr None
      else
        (case snd (persist_ranges max_args samples sel ranges) of
           Some e \<Rightarrow> Inl e
         | None \<Rightarrow>
             Inr (Some \<lparr>call_traces = main_traces samples sel interp,
                        call_yaxes =
                          yaxis_entries (fst (persist_ranges max_args samples sel ranges)) 0 sel\<rparr>)))"
  by (simp add: plot_effect_def split: prod.splits option.splits)

text \<open>
  C1 (first batch wins): once a range \<open>r\<close> is cached for a curve \<open>c\<close>, the range
  computation leaves it as it is, whatever the batch and the selection of the later
  call are, and so does the plot effect as a whole: the range found for \<open>c\<close> afterwards
  is \<open>r\<close>, and the new batch plays no part.
\<close>

theorem axis_range_first_batch_wins:
  assumes "ranges c = Some r"
  shows "fst (persist_ranges max_args samples sel ranges) c = Some r
       \<and> fst (plot_effect max_args plotRef samples sel interp ranges) c = Some r"
  using assms by (simp add: fst_plot_effect persist_ranges_hit)

text \<open>
  The scenario of the specification: the first batch has \<open>GR\<close> = 5 and 15, which caches
  \<open>[5, 15]\<close>; a second batch with \<open>GR\<close> = 100 leaves the range at \<open>[5, 15]\<close>.
\<close>

theorem axis_range_first_batch_wins_witness:
  "fst (persist_ranges 65536 [reading 0 ''GR'' 5, reading 1 ''GR'' 15] [''GR''] Map.empty) ''GR''
     = Some (5, 15)
   \<and> fst (persist_ranges 65536 [reading 2 ''GR'' 100] [''GR'']
        (fst (persist_ranges 65536 [reading 0 ''GR'' 5, reading 1 ''GR'' 15] [''GR''] Map.empty)))
       ''GR'' = Some (5, 15)
   \<and> fst (plot_effect 65536 True [reading 2 ''GR'' 100] [''GR''] None
        (fst (persist_ranges 65536 [reading 0 ''GR'' 5, reading 1 ''GR'' 15] [''GR''] Map.empty)))
       ''GR'' = Some (5, 15)"
proof -
  have first:
    "fst (persist_ranges 65536 [reading 0 ''GR'' 5, reading 1 ''GR'' 15] [''GR''] Map.empty) ''GR''
       = Some (5, 15)"
    by (simp add: range_eval)
  from first
    axis_range_first_batch_wins
      [where ranges =
          "fst (persist_ranges 65536 [reading 0 ''GR'' 5, reading 1 ''GR'' 15] [''GR''] Map.empty)"
         and c = "''GR''" and r = "(5, 15)" and samples = "[reading 2 ''GR'' 100]"
         and sel = "[''GR'']" and plotRef = True and interp = None and max_args = 65536]
  show ?thesis by simp
qed

text \<open>
  Within the limit of the engine the range computation does what C2 says: for a selected
  curve \<open>c\<close> with no cached range it caches the minimum and the maximum of exactly the
  numeric readings of \<open>c\<close> in the batch when there is at least one, and caches nothing
  when there is none; in the latter case a later call, with a batch \<open>samples'\<close> and a
  selection \<open>sel'\<close> that has \<open>c\<close>, computes the range from that batch.
\<close>

lemma axis_range_computed_within_limit:
  assumes "c \<in> set sel" and "ranges c = None"
    and "\<forall>c' \<in> set sel. length (numeric_values samples c') \<le> max_args"
  shows "fst (persist_ranges max_args samples sel ranges) c =
           (if numeric_readings samples c = {} then None
            else Some (Min (numeric_readings samples c), Max (numeric_readings samples c)))"
  using assms by (simp add: persist_ranges_miss persist_ranges_no_throw)

lemma axis_range_retry_within_limit:
  assumes "c \<in> set sel" and "ranges c = None" and "numeric_readings samples c = {}"
    and "\<forall>c' \<in> set sel. length (numeric_values samples c') \<le> max_args"
    and "c \<in> set sel'"
    and "\<forall>c' \<in> set sel'. length (numeric_values samples' c') \<le> max_args"
  shows "fst (persist_ranges max_args samples' sel'
                (fst (persist_ranges max_args samples sel ranges))) c =
           (if numeric_readings samples' c = {} then None
            else Some (Min (numeric_readings samples' c), Max (numeric_readings samples' c)))"
proof -
  from assms(1-4) have "fst (persist_ranges max_args samples sel ranges) c = None"
    by (simp add: axis_range_computed_within_limit)
  with assms(5,6) show ?thesis by (simp add: axis_range_computed_within_limit)
qed

text \<open>
  C2 (cache miss), where the code departs from it: for a curve \<open>c\<close> with no cached range
  and with more numeric values in the batch than the engine accepts as arguments of one
  call, the range computation throws a \<open>RangeError\<close> instead of caching the minimum and
  the maximum. Nothing is cached for \<open>c\<close>, and the plot effect ends with the error
  before it draws the chart.
\<close>

theorem axis_range_throws_on_large_batch:
  assumes "ranges c = None" and "max_args < length (numeric_values samples c)"
  shows "persist_range max_args samples ranges c = Inl RangeError
       \<and> persist_ranges max_args samples [c] ranges = (ranges, Some RangeError)
       \<and> plot_effect max_args True samples [c] interp ranges = (ranges, Inl RangeError)"
proof -
  from assms have throws: "persist_range max_args samples ranges c = Inl RangeError"
    by (simp add: persist_range_throws)
  moreover from assms(2) have "samples \<noteq> []"
    by (auto simp: numeric_values_def)
  ultimately show ?thesis by (simp add: plot_effect_def)
qed

text \<open>
  A batch of 200000 samples with a numeric \<open>GR\<close> each, on an engine that accepts 65536
  arguments: the effect throws and the cache stays empty, where C2 has \<open>[0, 199999]\<close>
  cached.
\<close>

theorem axis_range_throws_on_large_batch_witness:
  "length (numeric_values (ramp_batch ''GR'' 200000) ''GR'') = 200000
   \<and> persist_range 65536 (ramp_batch ''GR'' 200000) Map.empty ''GR'' = Inl RangeError
   \<and> plot_effect 65536 True (ramp_batch ''GR'' 200000) [''GR''] None Map.empty =
       (Map.empty, Inl RangeError)"
proof -
  have len: "length (numeric_values (ramp_batch ''GR'' 200000) ''GR'') = 200000"
    by (simp add: numeric_values_ramp_batch)
  then have large: "65536 < length (numeric_values (ramp_batch ''GR'' 200000) ''GR'')"
    by simp
  have miss: "(Map.empty :: axis_ranges) ''GR'' = None" by simp
  from axis_range_throws_on_large_batch [OF miss large, of None] len show ?thesis by simp
qed

section \<open>Axis identifiers\<close>

lemma of_char_digit_char: "of_char (digit_char d) = (48 + d) mod 256"
  by (simp add: digit_char_def)

lemma digit_char_inj:
  assumes "d < 10" and "e < 10" and "digit_char d = digit_char e"
  shows "d = e"
proof -
  from assms(3) have "(of_char (digit_char d) :: nat) = of_char (digit_char e)" by simp
  then have "(48 + d) mod 256 = (48 + e) mod 256" by (simp add: of_char_digit_char)
  with assms(1,2) show "d = e" by simp
qed

lemma string_of_nat_nonempty: "string_of_nat n \<noteq> []" "[] \<noteq> string_of_nat n"
  by (subst string_of_nat.simps, simp)+

lemma string_of_nat_small: "n < 10 \<Longrightarrow> string_of_nat n = [digit_char n]"
  by (subst string_of_nat.simps) simp

lemma string_of_nat_large:
  "\<not> n < 10 \<Longrightarrow> string_of_nat n = string_of_nat (n div 10) @ [digit_char (n mod 10)]"
  by (subst string_of_nat.simps) simp

text \<open>Two numbers with the same decimal digits are equal.\<close>

lemma string_of_nat_inj: "string_of_nat m = string_of_nat n \<Longrightarrow> m = n"
proof (induction m arbitrary: n rule: string_of_nat.induct)
  case (1 m)
  show ?case
  proof (cases "m < 10")
    case m: True
    show ?thesis
    proof (cases "n < 10")
      case True
      with m "1.prems" show ?thesis
        by (simp add: string_of_nat_small digit_char_inj)
    next
      case False
      with m "1.prems" string_of_nat_nonempty(1) [of "n div 10"] show ?thesis
        by (cases "string_of_nat (n div 10)")
           (simp_all add: string_of_nat_small string_of_nat_large)
    qed
  next
    case m: False
    show ?thesis
    proof (cases "n < 10")
      case True
      with m "1.prems" string_of_nat_nonempty(1) [of "m div 10"] show ?thesis
        by (cases "string_of_nat (m div 10)")
           (simp_all add: string_of_nat_small string_of_nat_large)
    next
      case False
      with m "1.prems" have eq: "string_of_nat (m div 10) = string_of_nat (n div 10)"
        and dg: "digit_char (m mod 10) = digit_char (n mod 10)"
        by (simp_all add: string_of_nat_large)
      from "1.IH" [OF m eq] have "m div 10 = n div 10" .
      moreover from dg have "m mod 10 = n mod 10" by (simp add: digit_char_inj)
      ultimately show ?thesis by (metis div_mult_mod_eq)
    qed
  qed
qed

lemma axisName_inj: "axisName i = axisName j \<Longrightarrow> i = j"
  by (auto simp: axisName_def string_of_nat_nonempty split: if_splits dest: string_of_nat_inj)

lemma yaxis_ref_inj: "yaxis_ref i = yaxis_ref j \<Longrightarrow> i = j"
  by (auto simp: yaxis_ref_def string_of_nat_nonempty split: if_splits dest: string_of_nat_inj)

text \<open>The identifiers of the first three positions.\<close>

lemma yaxis_eval:
  "yaxis_ref 0 = ''y''" "yaxis_ref (Suc 0) = ''y2''" "yaxis_ref (Suc (Suc 0)) = ''y3''"
  "axisName 0 = ''yaxis''" "axisName (Suc 0) = ''yaxis2''" "axisName (Suc (Suc 0)) = ''yaxis3''"
  by code_simp+

section \<open>Properties of the traces\<close>

lemma array_includes_set: "array_includes xs v \<longleftrightarrow> v \<in> set xs"
  by (induction xs) auto

lemma push_curve_traces_append:
  "push_curve_traces samples interp traces curve index =
     traces @ push_curve_traces samples interp [] curve index"
  by (simp add: push_curve_traces_def Let_def)

lemma upt_shift: "[0..<Suc n] = 0 # map Suc [0..<n]"
  by (simp add: upt_conv_Cons map_Suc_upt del: upt_Suc)

text \<open>
  The loop appends, for each position of the selection in turn, what its body pushes
  for the curve at that position.
\<close>

lemma forEach_traces_concat:
  "forEach_traces samples interp k sel acc =
     acc @ concat (map (\<lambda>i. push_curve_traces samples interp [] (sel ! i) (k + i))
                    [0..<length sel])"
proof (induction sel arbitrary: k acc)
  case Nil
  show ?case by simp
next
  case (Cons curve rest)
  have "forEach_traces samples interp k (curve # rest) acc =
        forEach_traces samples interp (Suc k) rest
          (acc @ push_curve_traces samples interp [] curve k)"
    using push_curve_traces_append [of samples interp acc curve k] by simp
  also have "\<dots> = acc @ push_curve_traces samples interp [] curve k @
      concat (map (\<lambda>i. push_curve_traces samples interp [] (rest ! i) (Suc k + i))
               [0..<length rest])"
    by (simp add: Cons.IH)
  also have "\<dots> = acc @
      concat (map (\<lambda>i. push_curve_traces samples interp [] ((curve # rest) ! i) (k + i))
               [0..<length (curve # rest)])"
    by (simp add: upt_shift comp_def del: upt_Suc)
  finally show ?case .
qed

lemma main_traces_concat:
  "main_traces samples sel interp =
     concat (map (\<lambda>i. push_curve_traces samples interp [] (sel ! i) i) [0..<length sel])"
  by (simp add: main_traces_def forEach_traces_concat)

lemma filter_concat_map: "filter P (concat (map f xs)) = concat (map (\<lambda>x. filter P (f x)) xs)"
  by (induction xs) simp_all

lemma concat_map_single: "concat (map (\<lambda>x. [g x]) xs) = map g xs"
  by (induction xs) simp_all

lemma concat_map_if: "concat (map (\<lambda>x. if p x then [g x] else []) xs) = map g (filter p xs)"
  by (induction xs) simp_all

lemma lines_of_block:
  "filter (\<lambda>t. mode t = Lines) (push_curve_traces samples interp [] curve index) =
     [line_trace samples curve index]"
  by (simp add: push_curve_traces_def Let_def line_trace_def spike_trace_def)

lemma markers_of_block:
  "filter (\<lambda>t. mode t = Markers) (push_curve_traces samples interp [] curve index) =
     (if spikeDepths_of interp curve \<noteq> []
      then [spike_trace samples (spikeDepths_of interp curve) curve index] else [])"
  by (simp add: push_curve_traces_def Let_def line_trace_def spike_trace_def)

lemma spike_trace_set:
  "spike_trace samples spikes curve index =
     \<lparr>trace_x = map depth (filter (\<lambda>d. depth d \<in> set spikes) samples),
      trace_y = map (\<lambda>d. value_at d curve) (filter (\<lambda>d. depth d \<in> set spikes) samples),
      mode = Markers,
      trace_name = curve @ '' Spikes'',
      trace_yaxis = Some (yaxis_ref index)\<rparr>"
  by (simp add: spike_trace_def Let_def array_includes_set)

lemmas trace_eval = spikeDepths_of_def spike_samples_def spike_interpretation_def yaxis_eval
  value_at_def reading_def

text \<open>
  C6 (line traces): for every selection and every content of the sample store, the line
  traces among the assembled traces are exactly one per selected curve, in the order of
  the selection. The trace at position \<open>i\<close> has the depth of every sample, in store
  order, as \<open>x\<close>, the sample's value for the curve (\<open>undefined\<close> where it is missing) as
  \<open>y\<close>, the curve's name, and the axis identifier of position \<open>i\<close>: \<open>y\<close> for the first
  curve, \<open>y2\<close>, \<open>y3\<close>, ... for the next ones.
\<close>

theorem line_traces_assembled:
  "filter (\<lambda>t. mode t = Lines) (main_traces samples sel interp) =
     map (\<lambda>i. \<lparr>trace_x = map depth samples,
                trace_y = map (\<lambda>d. value_at d (sel ! i)) samples,
                mode = Lines,
                trace_name = sel ! i,
                trace_yaxis = Some (yaxis_ref i)\<rparr>) [0..<length sel]
   \<and> length (filter (\<lambda>t. mode t = Lines) (main_traces samples sel interp)) = length sel"
proof -
  have "filter (\<lambda>t. mode t = Lines) (main_traces samples sel interp) =
        map (\<lambda>i. line_trace samples (sel ! i) i) [0..<length sel]"
    by (simp add: main_traces_concat filter_concat_map lines_of_block concat_map_single)
  then show ?thesis by (simp add: line_trace_def)
qed

text \<open>Three curves over two samples; the third curve has no reading at all.\<close>

theorem line_traces_assembled_witness:
  "filter (\<lambda>t. mode t = Lines)
     (main_traces [reading 1 ''GR'' 10, reading 2 ''RT'' 7] [''GR'', ''RT'', ''NPHI''] None) =
     [\<lparr>trace_x = [1, 2], trace_y = [JNum 10, JUndefined], mode = Lines, trace_name = ''GR'',
       trace_yaxis = Some ''y''\<rparr>,
      \<lparr>trace_x = [1, 2], trace_y = [JUndefined, JNum 7], mode = Lines, trace_name = ''RT'',
       trace_yaxis = Some ''y2''\<rparr>,
      \<lparr>trace_x = [1, 2], trace_y = [JUndefined, JUndefined], mode = Lines,
       trace_name = ''NPHI'', trace_yaxis = Some ''y3''\<rparr>]"
  using line_traces_assembled
      [of "[reading 1 ''GR'' 10, reading 2 ''RT'' 7]" "[''GR'', ''RT'', ''NPHI'']" None]
  by (simp add: trace_eval)

text \<open>
  C5 (spike markers): the marker traces among the assembled traces are exactly one for
  each position of the selection whose curve has a non-empty \<open>spikeDepths\<close>, in the
  order of the selection, and none for a curve whose \<open>spikeDepths\<close> is empty or missing.
  The points of the marker trace are the samples whose depth is equal to a member of
  \<open>spikeDepths\<close>, in store order, and its axis identifier is the one of the curve's line
  trace.
\<close>

theorem spike_markers_assembled:
  "filter (\<lambda>t. mode t = Markers) (main_traces samples sel interp) =
     map (\<lambda>i. \<lparr>trace_x = map depth
                  (filter (\<lambda>d. depth d \<in> set (spikeDepths_of interp (sel ! i))) samples),
                trace_y = map (\<lambda>d. value_at d (sel ! i))
                  (filter (\<lambda>d. depth d \<in> set (spikeDepths_of interp (sel ! i))) samples),
                mode = Markers,
                trace_name = sel ! i @ '' Spikes'',
                trace_yaxis = Some (yaxis_ref i)\<rparr>)
       (filter (\<lambda>i. spikeDepths_of interp (sel ! i) \<noteq> []) [0..<length sel])"
proof -
  have "filter (\<lambda>t. mode t = Markers) (main_traces samples sel interp) =
        map (\<lambda>i. spike_trace samples (spikeDepths_of interp (sel ! i)) (sel ! i) i)
          (filter (\<lambda>i. spikeDepths_of interp (sel ! i) \<noteq> []) [0..<length sel])"
    by (simp add: main_traces_concat filter_concat_map markers_of_block concat_map_if)
  then show ?thesis by (simp add: spike_trace_set)
qed

text \<open>
  The example of the specification: spikes at 100 and 150, samples at 90, 100, 110, 150
  and 200 give one marker trace with the two points at 100 and 150; the second selected
  curve, without statistics, gets none.
\<close>

theorem spike_markers_assembled_witness:
  "filter (\<lambda>t. mode t = Markers)
     (main_traces spike_samples [''GR'', ''RT''] (Some spike_interpretation)) =
     [\<lparr>trace_x = [100, 150], trace_y = [JNum 2, JNum 4], mode = Markers,
       trace_name = ''GR Spikes'', trace_yaxis = Some ''y''\<rparr>]"
  using spike_markers_assembled [of spike_samples "[''GR'', ''RT'']" "Some spike_interpretation"]
  by (simp add: trace_eval)

section \<open>Properties of the axis layout\<close>

lemma yaxis_entries_nth:
  "i < length sel \<Longrightarrow> yaxis_entries ranges k sel ! i = yaxis_entry ranges (sel ! i) (k + i)"
proof (induction sel arbitrary: k i)
  case Nil
  then show ?case by simp
next
  case (Cons curve rest)
  then show ?case by (cases i) simp_all
qed

lemma length_yaxis_entries: "length (yaxis_entries ranges k sel) = length sel"
  by (induction sel arbitrary: k) simp_all

lemma fromEntries_None: "k \<notin> fst ` set es \<Longrightarrow> fromEntries es k = None"
  by (induction es) (auto split: option.splits)

lemma fromEntries_distinct:
  "distinct (map fst es) \<Longrightarrow> (k, v) \<in> set es \<Longrightarrow> fromEntries es k = Some v"
proof (induction es)
  case Nil
  then show ?case by simp
next
  case (Cons e es)
  obtain k' v' where e: "e = (k', v')" by (cases e)
  show ?case
  proof (cases "(k, v) \<in> set es")
    case True
    with Cons e show ?thesis by simp
  next
    case False
    with Cons.prems e have "k = k'" "v = v'" "k \<notin> fst ` set es" by auto
    with e show ?thesis by (simp add: fromEntries_None)
  qed
qed

lemma fst_yaxis_entries:
  "map fst (yaxis_entries ranges k sel) = map axisName [k..<k + length sel]"
proof (induction sel arbitrary: k)
  case Nil
  show ?case by simp
next
  case (Cons curve rest)
  have "[k..<k + length (curve # rest)] = k # [Suc k..<Suc k + length rest]"
    by (simp add: upt_conv_Cons del: upt_Suc)
  with Cons [of "Suc k"] show ?case by (simp add: yaxis_entry_def del: upt_Suc)
qed

text \<open>The keys of the entries differ, so no entry overwrites another in the layout.\<close>

lemma distinct_yaxis_keys: "distinct (map fst (yaxis_entries ranges k sel))"
  by (simp add: fst_yaxis_entries distinct_map inj_on_def) (blast dest: axisName_inj)

lemma layout_yaxis:
  assumes "i < length sel"
  shows "fromEntries (yaxis_entries ranges 0 sel) (axisName i) =
           Some (snd (yaxis_entry ranges (sel ! i) i))"
proof -
  from assms have "yaxis_entries ranges 0 sel ! i \<in> set (yaxis_entries ranges 0 sel)"
    by (simp add: length_yaxis_entries)
  with assms have
    "(axisName i, snd (yaxis_entry ranges (sel ! i) i)) \<in> set (yaxis_entries ranges 0 sel)"
    by (simp add: yaxis_entries_nth yaxis_entry_def)
  then show ?thesis by (rule fromEntries_distinct [OF distinct_yaxis_keys])
qed

lemmas effect_eval = plot_effect_def yaxis_entry_def yaxis_eval range_eval

text \<open>
  C9 (axis layout): the entry at position \<open>i\<close> of the selection is stored in the layout
  under the axis name of \<open>i\<close> and is titled with the curve's name. Position 0 draws
  grid lines and overlays nothing; every later position overlays the axis \<open>y\<close> and draws
  no grid lines. The side is left for an even position and right for an odd one.
\<close>

theorem axis_layout_shape:
  assumes "i < length sel"
  shows "fst (yaxis_entries ranges 0 sel ! i) = axisName i
       \<and> fromEntries (yaxis_entries ranges 0 sel) (axisName i) =
           Some (snd (yaxis_entries ranges 0 sel ! i))
       \<and> title (snd (yaxis_entries ranges 0 sel ! i)) = sel ! i
       \<and> showgrid (snd (yaxis_entries ranges 0 sel ! i)) = (i = 0)
       \<and> overlaying (snd (yaxis_entries ranges 0 sel ! i)) = (if i = 0 then None else Some ''y'')
       \<and> side (snd (yaxis_entries ranges 0 sel ! i)) =
           (if i mod 2 = 0 then SideLeft else SideRight)"
  using assms by (simp add: yaxis_entries_nth layout_yaxis) (simp add: yaxis_entry_def)

text \<open>The three axes of a selection of three curves.\<close>

theorem axis_layout_shape_witness:
  "map fst (yaxis_entries Map.empty 0 [''GR'', ''RT'', ''NPHI'']) =
     [''yaxis'', ''yaxis2'', ''yaxis3'']
   \<and> map (title \<circ> snd) (yaxis_entries Map.empty 0 [''GR'', ''RT'', ''NPHI'']) =
       [''GR'', ''RT'', ''NPHI'']
   \<and> map (showgrid \<circ> snd) (yaxis_entries Map.empty 0 [''GR'', ''RT'', ''NPHI'']) =
       [True, False, False]
   \<and> map (overlaying \<circ> snd) (yaxis_entries Map.empty 0 [''GR'', ''RT'', ''NPHI'']) =
       [None, Some ''y'', Some ''y'']
   \<and> map (side \<circ> snd) (yaxis_entries Map.empty 0 [''GR'', ''RT'', ''NPHI'']) =
       [SideLeft, SideRight, SideLeft]"
  using axis_layout_shape [of 0 "[''GR'', ''RT'', ''NPHI'']" Map.empty]
    axis_layout_shape [of 1 "[''GR'', ''RT'', ''NPHI'']" Map.empty]
    axis_layout_shape [of 2 "[''GR'', ''RT'', ''NPHI'']" Map.empty]
  by (simp add: yaxis_entry_def yaxis_eval)

text \<open>
  C3, as the code has it: when the plot effect makes its call, the axis of every
  selected curve has \<open>autorange\<close> off and \<open>fixedrange\<close> on, and its \<open>range\<close> is what the
  cache holds for the curve after the effect's update: the cached pair when there is
  one, and no range at all when there is none. Auto-scaling is not asked for in either
  case.
\<close>

theorem axis_range_lock_policy:
  assumes "snd (plot_effect max_args plotRef samples sel interp ranges) = Inr (Some call)"
    and "i < length sel"
  shows "autorange (snd (call_yaxes call ! i)) = False
       \<and> fixedrange (snd (call_yaxes call ! i)) = True
       \<and> axis_range (snd (call_yaxes call ! i)) =
           fst (plot_effect max_args plotRef samples sel interp ranges) (sel ! i)"
proof -
  from assms(1) have "call_yaxes call =
      yaxis_entries (fst (plot_effect max_args plotRef samples sel interp ranges)) 0 sel"
    by (auto simp: plot_effect_def split: if_splits prod.splits option.splits)
  with assms(2) show ?thesis by (simp add: yaxis_entries_nth yaxis_entry_def)
qed

text \<open>A curve with the readings 5 and 15: the axis is locked to \<open>[5, 15]\<close>.\<close>

theorem axis_range_lock_policy_witness:
  "snd (plot_effect 65536 True [reading 0 ''GR'' 5, reading 1 ''GR'' 15] [''GR''] None Map.empty) =
     Inr (Some
       \<lparr>call_traces = main_traces [reading 0 ''GR'' 5, reading 1 ''GR'' 15] [''GR''] None,
        call_yaxes =
          [(''yaxis'', \<lparr>title = ''GR'', showgrid = True, overlaying = None, side = SideLeft,
              autorange = False, axis_range = Some (5, 15), fixedrange = True\<rparr>)]\<rparr>)
   \<and> fst (plot_effect 65536 True [reading 0 ''GR'' 5, reading 1 ''GR'' 15] [''GR''] None
        Map.empty) ''GR'' = Some (5, 15)"
proof -
  have call:
    "snd (plot_effect 65536 True [reading 0 ''GR'' 5, reading 1 ''GR'' 15] [''GR''] None
        Map.empty) =
     Inr (Some
       \<lparr>call_traces = main_traces [reading 0 ''GR'' 5, reading 1 ''GR'' 15] [''GR''] None,
        call_yaxes =
          [(''yaxis'', \<lparr>title = ''GR'', showgrid = True, overlaying = None, side = SideLeft,
              autorange = False, axis_range = Some (5, 15), fixedrange = True\<rparr>)]\<rparr>)"
    by (simp add: effect_eval)
  from axis_range_lock_policy [OF call, of 0] call show ?thesis by simp
qed

text \<open>
  A batch of one sample that has no reading of the selected curve \<open>GR\<close>, and an empty
  cache: nothing is cached, and the axis built for \<open>GR\<close> has no range, \<open>autorange\<close> off
  and \<open>fixedrange\<close> on. It does not ask for auto-scaling.
\<close>

theorem axis_range_lock_policy_counterexample:
  "plot_effect 65536 True [\<lparr>depth = 0, values_of = Some Map.empty\<rparr>] [''GR''] None Map.empty =
     (Map.empty,
      Inr (Some
        \<lparr>call_traces =
           [\<lparr>trace_x = [0], trace_y = [JUndefined], mode = Lines, trace_name = ''GR'',
             trace_yaxis = Some ''y''\<rparr>],
         call_yaxes =
           [(''yaxis'', \<lparr>title = ''GR'', showgrid = True, overlaying = None, side = SideLeft,
               autorange = False, axis_range = None, fixedrange = True\<rparr>)]\<rparr>))"
  by (simp add: effect_eval main_traces_def push_curve_traces_def line_trace_def
        spikeDepths_of_def)

section \<open>When the charts are drawn\<close>

text \<open>
  C7, as the code has it: with an empty selection the assembled traces are empty. The
  call of \<open>Plotly.newPlot\<close> is left out exactly when the plot element is missing or the
  sample store is empty, whatever the selection is; with an empty selection and a
  non-empty sample store the chart is drawn, with no trace and no value axis.
\<close>

theorem empty_selection_renders_empty_chart:
  "main_traces samples [] interp = []
   \<and> plot_effect max_args plotRef samples [] interp ranges =
       (ranges, Inr (if \<not> plotRef \<or> samples = [] then None
                     else Some \<lparr>call_traces = [], call_yaxes = []\<rparr>))
   \<and> (snd (plot_effect max_args plotRef samples sel interp ranges) = Inr None
        \<longleftrightarrow> \<not> plotRef \<or> samples = [])"
proof -
  have "plot_effect max_args plotRef samples [] interp ranges =
       (ranges, Inr (if \<not> plotRef \<or> samples = [] then None
                     else Some \<lparr>call_traces = [], call_yaxes = []\<rparr>))"
    by (simp add: main_traces_def plot_effect_def)
  moreover have "snd (plot_effect max_args plotRef samples sel interp ranges) = Inr None
        \<longleftrightarrow> \<not> plotRef \<or> samples = []"
    by (simp add: snd_plot_effect split: option.splits)
  ultimately show ?thesis by (simp add: main_traces_def)
qed

theorem empty_selection_renders_empty_chart_witness:
  "main_traces [reading 0 ''GR'' 5] [] None = []
   \<and> plot_effect 65536 True [reading 0 ''GR'' 5] [] None Map.empty =
       (Map.empty, Inr (Some \<lparr>call_traces = [], call_yaxes = []\<rparr>))
   \<and> plot_effect 65536 True [] [] None Map.empty = (Map.empty, Inr None)
   \<and> snd (plot_effect 65536 True [] [''GR''] None Map.empty) = Inr None"
  using empty_selection_renders_empty_chart
      [of "[reading 0 ''GR'' 5]" None 65536 True Map.empty "[]"]
    empty_selection_renders_empty_chart [of "[]" None 65536 True Map.empty "[''GR'']"]
  by simp

text \<open>
  With \<open>GR\<close> plotted, a click on the checkbox of \<open>GR\<close> empties the selection; the data
  is still there, and the effect that follows calls \<open>Plotly.newPlot\<close> with no traces.
\<close>

theorem empty_selection_renders_empty_chart_counterexample:
  "selectedCurves (handle_event loaded_state (ToggleCurve ''GR'')) = []
   \<and> snd (run_plot_effect 65536 (handle_event loaded_state (ToggleCurve ''GR''))) =
       Inr (Some \<lparr>call_traces = [], call_yaxes = []\<rparr>)"
  by (simp add: loaded_state_def handle_event_def toggle_curve_def checkbox_onChange_def
        run_plot_effect_def plot_effect_def main_traces_def)

section \<open>Properties of the chart of the cleaned curves\<close>

lemma push_cleaned_append: "push_cleaned traces entry = traces @ push_cleaned [] entry"
  by (simp add: push_cleaned_def split: prod.splits option.splits)

lemma foldl_push_cleaned:
  "foldl push_cleaned acc entries = acc @ concat (map (push_cleaned []) entries)"
proof (induction entries arbitrary: acc)
  case Nil
  show ?case by simp
next
  case (Cons e es)
  show ?case using push_cleaned_append [of acc e] by (simp add: Cons.IH)
qed

lemma cleaned_traces_concat: "cleaned_traces entries = concat (map (push_cleaned []) entries)"
  by (simp add: cleaned_traces_def foldl_push_cleaned)

lemma push_cleaned_line:
  "push_cleaned [] entry = (case cleaned_line entry of None \<Rightarrow> [] | Some t \<Rightarrow> [t])"
  by (cases entry) (simp add: push_cleaned_def cleaned_line_def split: option.splits)

lemma cleaned_traces_map_filter: "cleaned_traces entries = List.map_filter cleaned_line entries"
  by (induction entries)
     (simp_all add: cleaned_traces_concat push_cleaned_line split: option.splits)

text \<open>
  C8, as the code has it: the traces of the cleaned chart are one line trace for each
  entry of \<open>cleanedCurves\<close> that has both \<open>depths\<close> and \<open>values\<close>, in the order of the
  entries; an entry that lacks one of them is passed over. A field that is there counts
  also when it is an empty sequence. The chart is not drawn when no trace results, and
  the selection plays no part in any of this.
\<close>

theorem cleaned_overlay_assembled:
  "cleaned_traces entries = List.map_filter cleaned_line entries
   \<and> cleaned_plot_effect True (Some \<lparr>stats = s, cleanedCurves = Some entries, summary = m\<rparr>) =
       (if List.map_filter cleaned_line entries = [] then None
        else Some (List.map_filter cleaned_line entries))
   \<and> run_cleaned_plot_effect (st\<lparr>selectedCurves := sel\<rparr>) = run_cleaned_plot_effect st"
  by (simp add: cleaned_traces_map_filter cleaned_plot_effect_def Let_def
        run_cleaned_plot_effect_def cleanedPlotRef_def)

text \<open>
  The example of the specification, \<open>GR\<close> with three points, beside two entries that
  lack a field: one trace. An interpretation with only an entry that lacks a field: no
  chart. A state with its selection emptied: the same outcome as before.
\<close>

theorem cleaned_overlay_assembled_witness:
  "cleaned_traces
     [(''GR'', \<lparr>depths = Some [1, 2, 3], cleaned_values = Some [JNum 10, JNum 20, JNum 30]\<rparr>),
      (''RT'', \<lparr>depths = Some [1], cleaned_values = None\<rparr>),
      (''NPHI'', \<lparr>depths = None, cleaned_values = Some [JNum 1]\<rparr>)] =
     [\<lparr>trace_x = [1, 2, 3], trace_y = [JNum 10, JNum 20, JNum 30], mode = Lines,
       trace_name = ''GR (Cleaned)'', trace_yaxis = None\<rparr>]
   \<and> cleaned_plot_effect True
        (Some \<lparr>stats = None,
               cleanedCurves = Some [(''RT'', \<lparr>depths = Some [1], cleaned_values = None\<rparr>)],
               summary = None\<rparr>) = None
   \<and> run_cleaned_plot_effect (loaded_state\<lparr>selectedCurves := []\<rparr>) =
       run_cleaned_plot_effect loaded_state"
  using cleaned_overlay_assembled
      [of "[(''GR'', \<lparr>depths = Some [1, 2, 3],
                       cleaned_values = Some [JNum 10, JNum 20, JNum 30]\<rparr>),
            (''RT'', \<lparr>depths = Some [1], cleaned_values = None\<rparr>),
            (''NPHI'', \<lparr>depths = None, cleaned_values = Some [JNum 1]\<rparr>)]"
          None None "[]" loaded_state]
    cleaned_overlay_assembled
      [of "[(''RT'', \<lparr>depths = Some [1], cleaned_values = None\<rparr>)]" None None "[]" loaded_state]
  by (simp add: cleaned_line_def)

text \<open>
  An entry whose \<open>depths\<close> and \<open>values\<close> are both there and both empty: a trace with no
  points is emitted for it, and the chart is drawn.
\<close>

theorem cleaned_overlay_assembled_counterexample:
  "cleaned_plot_effect True
     (Some \<lparr>stats = None,
            cleanedCurves = Some [(''GR'', \<lparr>depths = Some [], cleaned_values = Some []\<rparr>)],
            summary = None\<rparr>) =
     Some [\<lparr>trace_x = [], trace_y = [], mode = Lines, trace_name = ''GR (Cleaned)'',
            trace_yaxis = None\<rparr>]"
  by (simp add: cleaned_plot_effect_def cleaned_traces_def push_cleaned_def)

section \<open>Properties of the state changes\<close>

lemmas event_eval =
  step_def handle_event_def run_plot_effect_def well_effect_def curves_loaded_def toggle_curve_def
  checkbox_onChange_def fetchData_def fetchData_resumed_def runAIInterpretation_def
  runAIInterpretation_resumed_def handleDeleteWell_def

text \<open>No handler writes to the object of \<open>axisRangesRef\<close>; only the plot effect does.\<close>

lemma well_effect_fields:
  "data (well_effect st) = data st" "selectedCurves (well_effect st) = selectedCurves st"
  "axisRangesRef (well_effect st) = axisRangesRef st"
  by (simp_all add: well_effect_def split: option.splits)

lemma apply_event_ranges: "axisRangesRef (apply_event st ev) = axisRangesRef st"
  by (cases ev)
     (simp_all add: curves_loaded_def toggle_curve_def fetchData_def fetchData_resumed_def
        runAIInterpretation_def runAIInterpretation_resumed_def handleDeleteWell_def Let_def
        split: option.splits)

lemma handle_event_fields:
  "axisRangesRef (handle_event st ev) = axisRangesRef st"
  "data (handle_event st ev) = data (apply_event st ev)"
  "selectedCurves (handle_event st ev) = selectedCurves (apply_event st ev)"
  by (simp_all add: handle_event_def Let_def well_effect_fields apply_event_ranges)

lemma run_plot_effect_fields:
  "axisRangesRef (fst (run_plot_effect max_args st)) =
     fst (plot_effect max_args True (data st) (selectedCurves st) (interpretation_of st)
            (axisRangesRef st))"
  "data (fst (run_plot_effect max_args st)) = data st"
  "selectedCurves (fst (run_plot_effect max_args st)) = selectedCurves st"
  by (simp_all add: run_plot_effect_def split: prod.splits)

lemma step_keeps_range:
  "axisRangesRef st c = Some r \<Longrightarrow> axisRangesRef (step max_args st ev) c = Some r"
  by (simp add: step_def run_plot_effect_fields handle_event_fields fst_plot_effect
        persist_ranges_hit)

lemma run_keeps_range:
  "axisRangesRef st c = Some r \<Longrightarrow> axisRangesRef (run max_args st evs) c = Some r"
  by (induction evs arbitrary: st) (simp_all add: step_keeps_range)

text \<open>
  C4, as the code has it: the cache is not discarded when the selected well changes. A
  range cached for a curve stays cached, with the same value, through every sequence of
  events, a change of the selected well and the deletion of the selected well among
  them. The sample store is not discarded either when another well is selected or when
  the curves of that well arrive; the deletion of the selected well empties it.
\<close>

theorem axis_ranges_outlive_well_change:
  assumes "axisRangesRef st c = Some r"
  shows "axisRangesRef (run max_args st evs) c = Some r
       \<and> data (step max_args st (SelectWell w)) = data st
       \<and> data (step max_args st (CurvesLoaded res)) = data st
       \<and> data (step max_args st (DeleteWell (selectedWell st) True True reloaded)) = []"
  using assms
  by (simp add: run_keeps_range step_def run_plot_effect_fields handle_event_fields
        curves_loaded_def handleDeleteWell_def Let_def split: option.splits)

text \<open>
  From the state with \<open>[5, 15]\<close> cached for \<open>GR\<close> of well \<open>A\<close>: well \<open>B\<close> is selected,
  its curves arrive, and its data, with \<open>GR\<close> = 100, is requested and received.
\<close>

theorem axis_ranges_outlive_well_change_witness:
  "axisRangesRef loaded_state ''GR'' = Some (5, 15)
   \<and> axisRangesRef
        (run 65536 loaded_state
           [SelectWell ''B'', CurvesLoaded [\<lparr>name = ''GR''\<rparr>], FetchData,
            DataResponse (Some [reading 2 ''GR'' 100])]) ''GR'' = Some (5, 15)
   \<and> data (step 65536 loaded_state (SelectWell ''B'')) =
       [reading 0 ''GR'' 5, reading 1 ''GR'' 15]
   \<and> data (step 65536 loaded_state (CurvesLoaded [\<lparr>name = ''GR''\<rparr>])) =
       [reading 0 ''GR'' 5, reading 1 ''GR'' 15]
   \<and> data (step 65536 loaded_state (DeleteWell ''A'' True True None)) = []"
proof -
  have cached: "axisRangesRef loaded_state ''GR'' = Some (5, 15)"
    by (simp add: loaded_state_def)
  have sel: "selectedWell loaded_state = ''A''"
    and dat: "data loaded_state = [reading 0 ''GR'' 5, reading 1 ''GR'' 15]"
    by (simp_all add: loaded_state_def)
  from cached sel dat
    axis_ranges_outlive_well_change
      [where st = loaded_state and c = "''GR''" and r = "(5, 15)" and w = "''B''"
         and max_args = 65536
         and evs = "[SelectWell ''B'', CurvesLoaded [\<lparr>name = ''GR''\<rparr>], FetchData,
                     DataResponse (Some [reading 2 ''GR'' 100])]"
         and res = "[\<lparr>name = ''GR''\<rparr>]" and reloaded = None]
  show ?thesis by simp
qed

text \<open>
  The whole session from the first render. When well \<open>B\<close> has been selected and its
  curves have arrived, the selected well is \<open>B\<close>, and the sample store and the cache
  still hold the samples and the range of well \<open>A\<close>. When the data of \<open>B\<close> has been
  received as well, the range cached for \<open>GR\<close> is still the one computed from the data
  of well \<open>A\<close>.
\<close>

theorem axis_ranges_outlive_well_change_counterexample:
  "selectedWell (run 65536 init_state well_change_session) = ''B''
   \<and> data (run 65536 init_state well_change_session) =
       [reading 0 ''GR'' 5, reading 1 ''GR'' 15]
   \<and> axisRangesRef (run 65536 init_state well_change_session) ''GR'' = Some (5, 15)
   \<and> data (run 65536 init_state two_well_session) = [reading 2 ''GR'' 100]
   \<and> axisRangesRef (run 65536 init_state two_well_session) ''GR'' = Some (5, 15)"
  by (simp add: init_state_def two_well_session_def well_change_session_def event_eval
        effect_eval)

lemma checkbox_onChange_ok:
  assumes "distinct sel" and "length sel \<le> 3"
  shows "distinct (checkbox_onChange sel c (\<not> array_includes sel c))
       \<and> length (checkbox_onChange sel c (\<not> array_includes sel c)) \<le> 3"
proof -
  have "length (filter (\<lambda>curve. curve \<noteq> c) sel) \<le> length sel"
    by (rule length_filter_le)
  then have "length (filter (\<lambda>curve. curve \<noteq> c) sel) \<le> 3"
    using assms(2) by (rule le_trans)
  with assms show ?thesis by (auto simp: checkbox_onChange_def array_includes_set)
qed

lemma apply_event_selection:
  assumes "distinct (selectedCurves st)" and "length (selectedCurves st) \<le> 3"
  shows "distinct (selectedCurves (apply_event st ev))
       \<and> length (selectedCurves (apply_event st ev)) \<le> 3"
proof (cases ev)
  case (ToggleCurve c)
  with checkbox_onChange_ok [OF assms, of c] show ?thesis by (simp add: toggle_curve_def)
next
  case (CurvesLoaded res)
  then show ?thesis by (simp add: curves_loaded_def Let_def split: list.splits)
qed (use assms in \<open>simp_all add: fetchData_def fetchData_resumed_def runAIInterpretation_def
        runAIInterpretation_resumed_def handleDeleteWell_def Let_def split: option.splits\<close>)

text \<open>
  C10, as the code has it: every event keeps the selection free of duplicates and of
  size at most 3. A click on the checkbox of a fourth curve, with three selected, leaves
  the selection as it is. When the curves of a well arrive, the selection becomes the
  first curve other than \<open>Depth\<close> and \<open>Time\<close>, and the empty selection when there is no
  such curve.
\<close>

theorem selection_at_most_three_unique:
  assumes "distinct (selectedCurves st)" and "length (selectedCurves st) \<le> 3"
  shows "distinct (selectedCurves (step max_args st ev))
       \<and> length (selectedCurves (step max_args st ev)) \<le> 3
       \<and> (length (selectedCurves st) = 3 \<longrightarrow> c \<notin> set (selectedCurves st) \<longrightarrow>
            selectedCurves (step max_args st (ToggleCurve c)) = selectedCurves st)
       \<and> selectedCurves (step max_args st (CurvesLoaded res)) =
           take 1 (map name (filter (\<lambda>c. name c \<noteq> ''Depth'' \<and> name c \<noteq> ''Time'') res))"
  using apply_event_selection [OF assms, of ev]
  by (simp add: step_def run_plot_effect_fields handle_event_fields toggle_curve_def
        checkbox_onChange_def
        array_includes_set curves_loaded_def Let_def split: list.splits)

text \<open>
  With \<open>GR\<close>, \<open>RT\<close> and \<open>NPHI\<close> selected, a click on \<open>RHOB\<close> changes nothing, and the
  arrival of the curves \<open>Depth\<close>, \<open>RT\<close>, \<open>GR\<close> selects \<open>RT\<close>.
\<close>

theorem selection_at_most_three_unique_witness:
  "selectedCurves
     (step 65536 (loaded_state\<lparr>selectedCurves := [''GR'', ''RT'', ''NPHI'']\<rparr>) (ToggleCurve ''RHOB''))
     = [''GR'', ''RT'', ''NPHI'']
   \<and> selectedCurves
       (step 65536 (loaded_state\<lparr>selectedCurves := [''GR'', ''RT'', ''NPHI'']\<rparr>)
          (CurvesLoaded [\<lparr>name = ''Depth''\<rparr>, \<lparr>name = ''RT''\<rparr>, \<lparr>name = ''GR''\<rparr>])) = [''RT'']"
  using selection_at_most_three_unique
      [where st = "loaded_state\<lparr>selectedCurves := [''GR'', ''RT'', ''NPHI'']\<rparr>"
         and ev = "ToggleCurve ''RHOB''" and c = "''RHOB''" and max_args = 65536
         and res = "[\<lparr>name = ''Depth''\<rparr>, \<lparr>name = ''RT''\<rparr>, \<lparr>name = ''GR''\<rparr>]"]
  by simp

text \<open>
  A well whose only curves are \<open>Depth\<close> and \<open>Time\<close>: when they arrive, the selection is
  empty, below the lower bound of 1.
\<close>

theorem selection_at_most_three_unique_counterexample:
  "selectedCurves (step 65536 loaded_state (CurvesLoaded [\<lparr>name = ''Depth''\<rparr>, \<lparr>name = ''Time''\<rparr>])) = []
   \<and> length (selectedCurves
        (step 65536 loaded_state (CurvesLoaded [\<lparr>name = ''Depth''\<rparr>, \<lparr>name = ''Time''\<rparr>]))) = 0"
  by (simp add: loaded_state_def event_eval effect_eval)

text \<open>
  An answer that arrives late is applied to the state of its arrival: data requested
  for well \<open>A\<close> and received after \<open>A\<close> was deleted fills the sample store again.
\<close>

lemma late_answer_fills_store:
  "data (run 65536 loaded_state [FetchData, DeleteWell ''A'' True True None]) = []
   \<and> data (run 65536 loaded_state
        [FetchData, DeleteWell ''A'' True True None, DataResponse (Some [reading 3 ''GR'' 7])]) =
       [reading 3 ''GR'' 7]"
  by (simp add: loaded_state_def event_eval effect_eval)

text \<open>
  The checkbox of the last selected curve can be cleared as well, which also leaves the
  selection empty.
\<close>

lemma uncheck_last_curve: "selectedCurves (step 65536 loaded_state (ToggleCurve ''GR'')) = []"
  by (simp add: loaded_state_def event_eval effect_eval)

end
